theory Spec2Isabelle
  imports Complex_Main "HOL-Library.Word" "HOL-Library.AList"
begin

section \<open>Wire contract (protocol package)\<close>

text \<open>
  A finite \<^verbatim>\<open>float32\<close>/\<^verbatim>\<open>float64\<close> value is a real number; negative zero, the
  infinities and NaN are kept apart. \<open>Fin 0\<close> is positive zero.
\<close>

datatype gofloat = Fin real | NegZero | Inf bool | NaN

text \<open>
  A Go \<^verbatim>\<open>interface{}\<close> value, by dynamic type: the nil interface, \<^verbatim>\<open>bool\<close>, any of the ten
  integer types (\<^verbatim>\<open>int\<close> ... \<^verbatim>\<open>uint64\<close>), \<^verbatim>\<open>float32\<close>/\<^verbatim>\<open>float64\<close>, \<^verbatim>\<open>string\<close>, a
  \<^verbatim>\<open>*protocol.ErrorObject\<close> (possibly a nil pointer), and every other type, tagged with
  its \<^verbatim>\<open>%T\<close> name. \<^verbatim>\<open>ErrorObject\<close> is the struct of protocol.go.
\<close>

datatype goval =
    GoNil
  | GoBool bool
  | GoInt int
  | GoFloat gofloat
  | GoString string
  | GoErrorObjectPtr "ErrorObject option"
  | GoOther string
and ErrorObject =
    ErrorObject (Code: int) (Message: string) (Data: goval)

text \<open>
  Go's \<^verbatim>\<open>error\<close> values: a \<^verbatim>\<open>*protocol.ErrorObject\<close>, or any other error, kept by its
  message (\<^verbatim>\<open>errors.New\<close>, \<^verbatim>\<open>fmt.Errorf\<close>, the errors of \<^verbatim>\<open>encoding/json\<close> and of the
  connection).
\<close>

datatype goerror = ErrorObjectErr ErrorObject | ErrorString string

text \<open>
  \<open>req_Params\<close> is the \<^verbatim>\<open>json.RawMessage\<close>: \<open>None\<close> is the nil slice, which is what
  decoding leaves when the request has no \<^verbatim>\<open>params\<close> member. \<open>req_ID\<close> is Go's nil when
  the request has no \<^verbatim>\<open>id\<close> member or a null one.
\<close>

record Request =
  req_Jsonrpc :: string
  req_Method :: string
  req_Params :: "string option"
  req_ID :: goval

record Response =
  resp_Jsonrpc :: string
  resp_Result :: goval
  resp_Error :: "ErrorObject option"
  resp_ID :: goval

definition CodeParseError :: int where "CodeParseError = -32700"
definition CodeInvalidRequest :: int where "CodeInvalidRequest = -32600"
definition CodeMethodNotFound :: int where "CodeMethodNotFound = -32601"
definition CodeInvalidParams :: int where "CodeInvalidParams = -32602"
definition CodeInternalError :: int where "CodeInternalError = -32603"

definition NewError :: "int \<Rightarrow> string \<Rightarrow> goval \<Rightarrow> ErrorObject" where
  "NewError code message data = ErrorObject code message data"

definition ParseError :: "goval \<Rightarrow> ErrorObject" where
  "ParseError data = NewError CodeParseError ''Parse error'' data"

definition MethodNotFoundError :: "goval \<Rightarrow> ErrorObject" where
  "MethodNotFoundError data = NewError CodeMethodNotFound ''Method not found'' data"

definition InvalidParamsError :: "goval \<Rightarrow> ErrorObject" where
  "InvalidParamsError data = NewError CodeInvalidParams ''Invalid params'' data"

section \<open>Request context and middleware engine (context.go)\<close>

text \<open>
  The context, without its \<^verbatim>\<open>Conn\<close> and its embedded \<^verbatim>\<open>context.Context\<close>, which no
  method below reads.
  \<open>trace\<close> is instrumentation, not a field of the Go struct: \<open>Next\<close> appends
  \<open>Advance i\<close> when it is called with the cursor at \<open>i\<close> and \<open>Invoke j\<close> when it
  calls the handler at index \<open>j\<close>. The \<^verbatim>\<open>handlerChain\<close> field is set once by
  \<^verbatim>\<open>handleRequest\<close> and never written afterwards; it is passed beside the context.
\<close>

datatype event = Advance int | Invoke nat

record Context =
  Request :: Request
  store :: "string \<rightharpoonup> goval"
  responseResult :: goval
  responseError :: "ErrorObject option"
  handlerIdx :: int
  trace :: "event list"

definition GetResponseError :: "Context \<Rightarrow> ErrorObject option" where
  "GetResponseError c = responseError c"

definition GetResponseResult :: "Context \<Rightarrow> goval" where
  "GetResponseResult c = responseResult c"

definition Result :: "goval \<Rightarrow> Context \<Rightarrow> Context" where
  "Result data c = c\<lparr>responseResult := data\<rparr>"

definition Error :: "ErrorObject option \<Rightarrow> Context \<Rightarrow> Context" where
  "Error err c = c\<lparr>responseError := err\<rparr>"

definition Set :: "string \<Rightarrow> goval \<Rightarrow> Context \<Rightarrow> Context" where
  "Set key v c = c\<lparr>store := (store c)(key \<mapsto> v)\<rparr>"

definition Get :: "string \<Rightarrow> Context \<Rightarrow> goval option" where
  "Get key c = store c key"

text \<open>
  A \<^verbatim>\<open>HandlerFunc\<close> is Go code that receives the context. What it can do to the context
  is call its exported methods, so a handler is a finite program over them: each step
  computes its arguments from the context as it stands (what \<open>Bind\<close> and \<open>Get\<close> read
  included), and \<open>Branch\<close> chooses on it. A handler may call \<open>Next\<close> any number of
  times. Handlers are taken to return: one that loops or panics writes no response and
  is outside this model.
\<close>

datatype handler =
    Return
  | DoResult "Context \<Rightarrow> goval" handler
  | DoError "Context \<Rightarrow> ErrorObject option" handler
  | DoSet string "Context \<Rightarrow> goval" handler
  | DoNext handler
  | Branch "Context \<Rightarrow> bool" handler handler

text \<open>
  \<open>Next\<close> increments the cursor and calls the handler it points to, if any; \<open>run\<close>
  executes a handler body, whose \<open>DoNext\<close> step calls \<open>Next\<close> again. Indexing the chain
  with a negative cursor panics in Go: the result is \<open>None\<close>.
\<close>

function (domintros) Next :: "handler list \<Rightarrow> Context \<Rightarrow> Context option"
  and run :: "handler list \<Rightarrow> handler \<Rightarrow> Context \<Rightarrow> Context option"
where
  "Next hc c =
     (let c1 = c\<lparr>handlerIdx := handlerIdx c + 1, trace := trace c @ [Advance (handlerIdx c)]\<rparr>
      in if handlerIdx c1 < int (length hc) then
           (if handlerIdx c1 < 0 then None
            else run hc (hc ! nat (handlerIdx c1))
                   (c1\<lparr>trace := trace c1 @ [Invoke (nat (handlerIdx c1))]\<rparr>))
         else Some c1)"
| "run hc Return c = Some c"
| "run hc (DoResult f k) c = run hc k (Result (f c) c)"
| "run hc (DoError f k) c = run hc k (Error (f c) c)"
| "run hc (DoSet key f k) c = run hc k (Set key (f c) c)"
| "run hc (DoNext k) c =
     (case Next hc c of None \<Rightarrow> None | Some c' \<Rightarrow> run hc k c')"
| "run hc (Branch p a b) c = (if p c then run hc a c else run hc b c)"
  by pat_completeness auto

text \<open>
  \<open>Bind\<close> reads the params and writes the target only. \<^verbatim>\<open>json.Unmarshal\<close> is a parameter:
  given the payload and the target it returns its error, if any, and the target as it
  leaves it. The context is returned as well, as \<open>Bind\<close> leaves it.
\<close>

definition Bind ::
  "(string \<Rightarrow> 'v \<Rightarrow> goerror option \<times> 'v) \<Rightarrow> Context \<Rightarrow> 'v \<Rightarrow> goerror option \<times> 'v \<times> Context" where
  "Bind unmarshal c v =
     (case req_Params (Request c) of
        None \<Rightarrow> (Some (ErrorObjectErr (InvalidParamsError (GoString ''params are null''))), v, c)
      | Some params \<Rightarrow> (let (err, v') = unmarshal params v in (err, v', c)))"

section \<open>Method registry (router.go)\<close>

record handlerEntry =
  chain :: "handler list"

record router =
  handlers :: "string \<rightharpoonup> handlerEntry"

definition newRouter :: router where
  "newRouter = \<lparr>handlers = Map.empty\<rparr>"

text \<open>\<open>router_add\<close> panics on an empty chain: \<open>None\<close>.\<close>

definition router_add :: "string \<Rightarrow> handler list \<Rightarrow> router \<Rightarrow> router option" where
  "router_add method hs r =
     (if length hs = 0 then None
      else Some (r\<lparr>handlers := (handlers r)(method \<mapsto> \<lparr>chain = hs\<rparr>)\<rparr>))"

definition router_find :: "string \<Rightarrow> router \<Rightarrow> handlerEntry option" where
  "router_find method r = handlers r method"

section \<open>Connection server loop (server.go)\<close>

text \<open>
  The server as \<^verbatim>\<open>handleRequest\<close> sees it: the registry and the global middlewares
  (the listener, its mutex and the wait group are used by \<^verbatim>\<open>Listen\<close> and \<^verbatim>\<open>Close\<close> only).
  The outbound stream of a connection is the list of responses encoded onto it.
\<close>

record Server =
  router :: router
  globalMiddlewares :: "handler list"

definition createResponse :: "goval \<Rightarrow> goval \<Rightarrow> Response" where
  "createResponse rid data =
     (case data of
        GoErrorObjectPtr val \<Rightarrow>
          \<lparr>resp_Jsonrpc = ''2.0'', resp_Result = GoNil, resp_Error = val, resp_ID = rid\<rparr>
      | _ \<Rightarrow>
          \<lparr>resp_Jsonrpc = ''2.0'', resp_Result = data, resp_Error = None, resp_ID = rid\<rparr>)"

text \<open>
  The write is taken to succeed; the code only logs a failing \<^verbatim>\<open>Encode\<close> and goes on.
\<close>

definition writeResponse :: "Response list \<Rightarrow> goval \<Rightarrow> goval \<Rightarrow> Response list" where
  "writeResponse enc rid data = enc @ [createResponse rid data]"

text \<open>\<open>newContext\<close> is the struct literal \<^verbatim>\<open>&Context{...}\<close> of \<^verbatim>\<open>handleRequest\<close>.\<close>

definition newContext :: "Request \<Rightarrow> Context" where
  "newContext req =
     \<lparr>Request = req, store = Map.empty, responseResult = GoNil, responseError = None,
      handlerIdx = -1, trace = []\<rparr>"

text \<open>
  \<open>handleRequest\<close> returns the outbound stream and the trace of the chain it ran;
  \<open>None\<close> is a panic of \<open>Next\<close>.
\<close>

definition handleRequest ::
  "Server \<Rightarrow> Response list \<Rightarrow> Request \<Rightarrow> (Response list \<times> event list) option" where
  "handleRequest s enc req =
     (if req_ID req = GoNil then
        Some (writeResponse enc GoNil (GoErrorObjectPtr (Some (ParseError (req_ID req)))), [])
      else
        (case router_find (req_Method req) (router s) of
           None \<Rightarrow>
             Some (writeResponse enc (req_ID req)
                    (GoErrorObjectPtr (Some (MethodNotFoundError (GoString (req_Method req))))), [])
         | Some entry \<Rightarrow>
             (let finalChain = globalMiddlewares s @ chain entry;
                  ctx = newContext req
              in case Next finalChain ctx of
                   None \<Rightarrow> None
                 | Some ctx' \<Rightarrow>
                     Some (if responseError ctx' \<noteq> None
                           then writeResponse enc (req_ID req) (GoErrorObjectPtr (responseError ctx'))
                           else writeResponse enc (req_ID req) (responseResult ctx'),
                           trace ctx'))))"

text \<open>
  A response field is populated when it is not Go's nil, which is when
  \<^verbatim>\<open>omitempty\<close> keeps it on the wire.
\<close>

definition result_populated :: "Response \<Rightarrow> bool" where
  "result_populated r = (resp_Result r \<noteq> GoNil)"

definition error_populated :: "Response \<Rightarrow> bool" where
  "error_populated r = (resp_Error r \<noteq> None)"

section \<open>Client call registry (client.go)\<close>

text \<open>
  \<^verbatim>\<open>fmt.Sprintf\<close> with the verbs \<open>idToKey\<close> uses. \<^verbatim>\<open>%d\<close> prints the decimal digits with
  a minus sign for a negative value. \<^verbatim>\<open>%.0f\<close> prints the sign, then the magnitude rounded
  to an integer, halves to the even neighbour.
\<close>

function decimal :: "nat \<Rightarrow> string" where
  "decimal n =
     (if n < 10 then [''0123456789'' ! n]
      else decimal (n div 10) @ [''0123456789'' ! (n mod 10)])"
  by pat_completeness auto
termination
  by (relation "measure id") auto

declare decimal.simps [simp del]

definition Sprintf_d :: "int \<Rightarrow> string" where
  "Sprintf_d v = (if v < 0 then ''-'' @ decimal (nat (- v)) else decimal (nat v))"

definition round_half_even :: "real \<Rightarrow> int" where
  "round_half_even x =
     (let f = \<lfloor>x\<rfloor>; d = x - of_int f
      in if d < 1 / 2 then f
         else if 1 / 2 < d then f + 1
         else if even f then f else f + 1)"

definition Sprintf_f0 :: "gofloat \<Rightarrow> string" where
  "Sprintf_f0 v =
     (case v of
        Fin r \<Rightarrow> if r < 0 then ''-'' @ decimal (nat (round_half_even (- r)))
                 else decimal (nat (round_half_even r))
      | NegZero \<Rightarrow> ''-0''
      | Inf neg \<Rightarrow> if neg then ''-Inf'' else ''+Inf''
      | NaN \<Rightarrow> ''NaN'')"

text \<open>
  \<^verbatim>\<open>%T\<close>, the name of the dynamic type. \<open>idToKey\<close> prints it for the values of its
  default branch only; for the numeric types the name given is one of several.
\<close>

definition Sprintf_T :: "goval \<Rightarrow> string" where
  "Sprintf_T v =
     (case v of
        GoNil \<Rightarrow> ''<nil>''
      | GoBool _ \<Rightarrow> ''bool''
      | GoInt _ \<Rightarrow> ''int''
      | GoFloat _ \<Rightarrow> ''float64''
      | GoString _ \<Rightarrow> ''string''
      | GoErrorObjectPtr _ \<Rightarrow> ''*protocol.ErrorObject''
      | GoOther t \<Rightarrow> t)"

definition idToKey :: "goval \<Rightarrow> goerror + string" where
  "idToKey rid =
     (case rid of
        GoString v \<Rightarrow> Inr v
      | GoInt v \<Rightarrow> Inr (Sprintf_d v)
      | GoFloat v \<Rightarrow> Inr (Sprintf_f0 v)
      | _ \<Rightarrow> Inl (ErrorString (''jsonrpc2: unsupported id type '' @ [CHR 39] @ Sprintf_T rid
                               @ [CHR 39] @ '' for map key'')))"

text \<open>
  A \<^verbatim>\<open>Call\<close> struct. \<open>call_Reply\<close> is \<open>None\<close> for a nil reply pointer, else the value it
  points to. The \<^verbatim>\<open>Done\<close> channel is kept in the client state, as the log of the sends
  \<^verbatim>\<open>call.Done <- call\<close> the code executes (on a full channel such a send blocks).
\<close>

record Call =
  call_Method :: string
  call_Args :: goval
  call_Reply :: "goval option"
  call_Error :: "goerror option"

text \<open>
  The client. \<^verbatim>\<open>*Call\<close> pointers are indices into \<open>calls\<close>; the \<^verbatim>\<open>pending\<close> map is an
  association list from key to pointer; \<open>conn\<close> holds the requests encoded onto the
  connection and \<open>Done\<close> the calls sent on their \<^verbatim>\<open>Done\<close> channel, in order.
\<close>

record Client =
  seq :: "64 word"
  pending :: "(string \<times> nat) list"
  closing :: bool
  shutdown :: bool
  calls :: "Call list"
  conn :: "Request list"
  Done :: "nat list"

definition set_Error :: "nat \<Rightarrow> goerror option \<Rightarrow> Client \<Rightarrow> Client" where
  "set_Error call err c = c\<lparr>calls := (calls c)[call := (calls c ! call)\<lparr>call_Error := err\<rparr>]\<rparr>"

definition set_Reply :: "nat \<Rightarrow> goval \<Rightarrow> Client \<Rightarrow> Client" where
  "set_Reply call v c = c\<lparr>calls := (calls c)[call := (calls c ! call)\<lparr>call_Reply := Some v\<rparr>]\<rparr>"

definition send_Done :: "nat \<Rightarrow> Client \<Rightarrow> Client" where
  "send_Done call c = c\<lparr>Done := Done c @ [call]\<rparr>"

text \<open>
  \<open>send\<close> in three parts, each one critical section of the Go function:
  \<open>send_register\<close> runs up to the first \<^verbatim>\<open>c.mutex.Unlock()\<close> and either rejects the call
  (\<open>Inl\<close>) or registers it under its key (\<open>Inr\<close>); \<open>Encode\<close> is the write under
  \<^verbatim>\<open>sendMutex\<close>, whose outcome \<open>werr\<close> the connection decides (\<open>conn\<close> keeps the
  requests written whole); \<open>send_failed\<close> is the branch taken when the write failed.
\<close>

definition send_register :: "goval \<Rightarrow> nat \<Rightarrow> Client \<Rightarrow> Client + string \<times> Client" where
  "send_register rid call c =
     (if rid = GoNil then
        Inl (send_Done call (set_Error call
          (Some (ErrorString ''jsonrpc2: request id cannot be null for a call that expects a reply'')) c))
      else if shutdown c \<or> closing c then
        Inl (send_Done call (set_Error call (Some (ErrorString ''client is shut down or closing'')) c))
      else
        (case idToKey rid of
           Inl err \<Rightarrow> Inl (send_Done call (set_Error call (Some err) c))
         | Inr idKey \<Rightarrow> Inr (idKey, c\<lparr>pending := AList.update idKey call (pending c)\<rparr>)))"

definition Encode :: "goerror option \<Rightarrow> Request \<Rightarrow> Client \<Rightarrow> Client" where
  "Encode werr req c = (case werr of None \<Rightarrow> c\<lparr>conn := conn c @ [req]\<rparr> | Some _ \<Rightarrow> c)"

definition send_failed :: "string \<Rightarrow> nat \<Rightarrow> goerror \<Rightarrow> Client \<Rightarrow> Client" where
  "send_failed idKey call err c =
     (let c1 = (if map_of (pending c) idKey = Some call
                then c\<lparr>pending := AList.delete idKey (pending c)\<rparr> else c)
      in send_Done call (set_Error call (Some err) c1))"

text \<open>\<open>send\<close> with nothing running between its parts. \<^verbatim>\<open>json.Marshal\<close> is a parameter.\<close>

definition send ::
  "(goval \<Rightarrow> string option) \<Rightarrow> goerror option \<Rightarrow> goval \<Rightarrow> nat \<Rightarrow> Client \<Rightarrow> Client" where
  "send marshal werr rid call c =
     (case send_register rid call c of
        Inl c' \<Rightarrow> c'
      | Inr (idKey, c1) \<Rightarrow>
          (let params = marshal (call_Args (calls c1 ! call));
               req = \<lparr>req_Jsonrpc = ''2.0'', req_Method = call_Method (calls c1 ! call),
                      req_Params = params, req_ID = rid\<rparr>;
               c2 = Encode werr req c1
           in case werr of None \<Rightarrow> c2 | Some err \<Rightarrow> send_failed idKey call err c2))"

text \<open>\<open>newCall\<close> is the allocation \<^verbatim>\<open>&Call{...}\<close> of \<^verbatim>\<open>GoWithID\<close>: the new pointer and the state.\<close>

definition newCall :: "string \<Rightarrow> goval \<Rightarrow> goval option \<Rightarrow> Client \<Rightarrow> nat \<times> Client" where
  "newCall method args reply c =
     (length (calls c),
      c\<lparr>calls := calls c @
           [\<lparr>call_Method = method, call_Args = args, call_Reply = reply, call_Error = None\<rparr>]\<rparr>)"

definition GoWithID ::
  "(goval \<Rightarrow> string option) \<Rightarrow> goerror option \<Rightarrow> goval \<Rightarrow> string \<Rightarrow> goval \<Rightarrow> goval option
     \<Rightarrow> Client \<Rightarrow> nat \<times> Client" where
  "GoWithID marshal werr rid method args reply c =
     (let (call, c1) = newCall method args reply c
      in (call, send marshal werr rid call c1))"

text \<open>
  \<^verbatim>\<open>Go\<close> takes the next sequence number as the id. \<^verbatim>\<open>Call\<close> and \<^verbatim>\<open>CallWithID\<close> are
  \<^verbatim>\<open>Go\<close> and \<^verbatim>\<open>GoWithID\<close> followed by a wait on \<^verbatim>\<open>Done\<close> or a timer.
\<close>

definition Go ::
  "(goval \<Rightarrow> string option) \<Rightarrow> goerror option \<Rightarrow> string \<Rightarrow> goval \<Rightarrow> goval option
     \<Rightarrow> Client \<Rightarrow> nat \<times> Client" where
  "Go marshal werr method args reply c =
     (let c1 = c\<lparr>seq := seq c + 1\<rparr>; seqID = seq c1
      in GoWithID marshal werr (GoInt (uint seqID)) method args reply c1)"

text \<open>
  One iteration of the receive loop, after \<^verbatim>\<open>Decode\<close> has filled \<open>res\<close>; \<open>res\<close> is the
  loop's variable as it stands then. Decoding the
  result into the reply (\<^verbatim>\<open>json.Marshal\<close> then \<^verbatim>\<open>json.Unmarshal\<close>) is a parameter: from the
  result and the reply's old value, the error and the reply's new value.
\<close>

definition receive_one ::
  "(goval \<Rightarrow> goval \<Rightarrow> goerror option \<times> goval) \<Rightarrow> Response \<Rightarrow> Client \<Rightarrow> Client" where
  "receive_one unmarshal res c =
     (case idToKey (resp_ID res) of
        Inl errKey \<Rightarrow> c
      | Inr idKey \<Rightarrow>
          (let call = map_of (pending c) idKey;
               c1 = c\<lparr>pending := AList.delete idKey (pending c)\<rparr>
           in case call of
                None \<Rightarrow> c1
              | Some a \<Rightarrow>
                  send_Done a
                    (case resp_Error res of
                       Some e \<Rightarrow> set_Error a (Some (ErrorObjectErr e)) c1
                     | None \<Rightarrow>
                         (case call_Reply (calls c1 ! a) of
                            None \<Rightarrow> c1
                          | Some tgt \<Rightarrow>
                              (let (err, tgt') = unmarshal (resp_Result res) tgt
                               in set_Error a err (set_Reply a tgt' c1))))))"

text \<open>
  The failure sweep at the end of the receive loop. Go ranges over the map in no fixed
  order; the model takes the list's.
\<close>

definition sweep :: "goerror \<Rightarrow> Client \<Rightarrow> Client" where
  "sweep err c =
     fold (\<lambda>(key, call) c'.
             (send_Done call (set_Error call (Some err) c'))\<lparr>pending := AList.delete key (pending c')\<rparr>)
          (pending c) (c\<lparr>shutdown := True\<rparr>)"

text \<open>
  The receive loop over the responses the decoder yields before it fails with \<open>err\<close>.
\<close>

definition receiveLoop ::
  "(goval \<Rightarrow> goval \<Rightarrow> goerror option \<times> goval) \<Rightarrow> Response list \<Rightarrow> goerror \<Rightarrow> Client \<Rightarrow> Client" where
  "receiveLoop unmarshal ress err c = sweep err (fold (receive_one unmarshal) ress c)"

section \<open>Example chains\<close>

text \<open>
  Handlers in the shape of the example server's: a logging middleware that only calls
  \<open>Next\<close>, an authorisation middleware that sets error -32001 and returns unless the
  params carry the token, and a final handler that sets a result. \<open>ex_twice\<close> calls
  \<open>Next\<close> twice.
\<close>

definition ex_logging :: handler where
  "ex_logging = DoNext Return"

definition ex_auth :: handler where
  "ex_auth =
     Branch (\<lambda>c. req_Params (Request c) \<noteq> Some ''secret-token'')
       (DoError (\<lambda>c. Some (NewError (- 32001) ''Unauthorized'' GoNil)) Return)
       (DoSet ''user'' (\<lambda>c. GoString ''admin'') (DoNext Return))"

definition ex_add :: handler where
  "ex_add = DoResult (\<lambda>c. GoInt 15) Return"

definition ex_server :: Server where
  "ex_server =
     \<lparr>router = \<lparr>handlers = [''Arith.Add'' \<mapsto> \<lparr>chain = [ex_logging, ex_auth, ex_add]\<rparr>,
                             ''Log.Only'' \<mapsto> \<lparr>chain = [ex_logging]\<rparr>]\<rparr>,
      globalMiddlewares = []\<rparr>"

definition ex_request :: "string \<Rightarrow> string \<Rightarrow> goval \<Rightarrow> Request" where
  "ex_request method token rid =
     \<lparr>req_Jsonrpc = ''2.0'', req_Method = method, req_Params = Some token, req_ID = rid\<rparr>"

definition ex_twice :: handler where
  "ex_twice = DoNext (DoNext Return)"

definition ex_stop :: handler where
  "ex_stop = DoResult (\<lambda>c. GoString ''stop'') Return"

definition ex_late :: handler where
  "ex_late = DoResult (\<lambda>c. GoString ''late'') Return"

definition ex_server2 :: Server where
  "ex_server2 =
     \<lparr>router = \<lparr>handlers = [''M'' \<mapsto> \<lparr>chain = [ex_stop, ex_late]\<rparr>]\<rparr>,
      globalMiddlewares = [ex_twice]\<rparr>"

definition ex_server_cut :: Server where
  "ex_server_cut =
     \<lparr>router = \<lparr>handlers = [''Arith.Add'' \<mapsto> \<lparr>chain = [ex_logging, ex_auth]\<rparr>]\<rparr>,
      globalMiddlewares = []\<rparr>"

text \<open>
  A client as \<^verbatim>\<open>Dial\<close> creates it, and stand-ins for the \<^verbatim>\<open>encoding/json\<close> calls:
  \<open>ex_unmarshal_int\<close> is \<^verbatim>\<open>json.Unmarshal\<close> at an \<^verbatim>\<open>*int\<close> target on the payloads
  \<^verbatim>\<open>42\<close> and \<^verbatim>\<open>true\<close>.
\<close>

definition ex_client :: Client where
  "ex_client = \<lparr>seq = 0, pending = [], closing = False, shutdown = False,
                 calls = [], conn = [], Done = []\<rparr>"

definition ex_marshal :: "goval \<Rightarrow> string option" where
  "ex_marshal v = Some ''null''"

definition ex_unmarshal_int :: "string \<Rightarrow> int \<Rightarrow> goerror option \<times> int" where
  "ex_unmarshal_int p v =
     (if p = ''42'' then (None, 42)
      else if p = ''true'' then
        (Some (ErrorString ''json: cannot unmarshal bool into Go value of type int''), v)
      else (Some (ErrorString ''json: payload outside this table''), v))"


definition ex_unmarshal :: "goval \<Rightarrow> goval \<Rightarrow> goerror option \<times> goval" where
  "ex_unmarshal v tgt = (None, v)"

definition ex_job :: Response where
  "ex_job = \<lparr>resp_Jsonrpc = ''2.0'', resp_Result = GoString ''done'', resp_Error = None,
             resp_ID = GoString ''job''\<rparr>"

definition ex_request_job :: Request where
  "ex_request_job = \<lparr>req_Jsonrpc = ''2.0'', req_Method = ''work'', req_Params = Some ''null'',
                     req_ID = GoString ''job''\<rparr>"

text \<open>
  The states of the run below: \<open>ex_c1\<close> after a first call under the id \<open>job\<close> whose
  request was written (call 0); \<open>ex_c2\<close> after a second call under the same id was
  allocated and registered (call 1); \<open>ex_c3\<close> after the receive loop handled the response
  to the first call; \<open>ex_c4\<close> after the write of the second call failed.
\<close>

definition ex_c1 :: Client where
  "ex_c1 = snd (GoWithID ex_marshal None (GoString ''job'') ''work'' GoNil None ex_client)"

definition ex_c2 :: Client where
  "ex_c2 = (case send_register (GoString ''job'') 1 (snd (newCall ''work'' GoNil None ex_c1)) of
              Inl c \<Rightarrow> c | Inr (idKey, c) \<Rightarrow> c)"

definition ex_c3 :: Client where
  "ex_c3 = receive_one ex_unmarshal ex_job ex_c2"

definition ex_c4 :: Client where
  "ex_c4 = send_failed ''job'' 1 (ErrorString ''write: broken pipe'')
             (Encode (Some (ErrorString ''write: broken pipe'')) ex_request_job ex_c3)"

section \<open>Vocabulary of the properties\<close>

text \<open>\<open>has_Next h\<close>: the body of \<open>h\<close> contains a call of \<open>Next\<close> on some path.\<close>

fun has_Next :: "handler \<Rightarrow> bool" where
  "has_Next Return = False"
| "has_Next (DoResult f k) = has_Next k"
| "has_Next (DoError f k) = has_Next k"
| "has_Next (DoSet key f k) = has_Next k"
| "has_Next (DoNext k) = True"
| "has_Next (Branch p a b) = (has_Next a \<or> has_Next b)"

text \<open>
  \<open>covers c c'\<close>: the trace of \<open>c'\<close> extends that of \<open>c\<close>, every handler invoked in
  between has an index up to the cursor of \<open>c'\<close>, and every cursor value passed in
  between was advanced from.
\<close>

definition covers :: "Context \<Rightarrow> Context \<Rightarrow> bool" where
  "covers c c' \<longleftrightarrow>
     (\<exists>T. trace c' = trace c @ T \<and>
          (\<forall>j. Invoke j \<in> set T \<longrightarrow> int j \<le> handlerIdx c') \<and>
          (\<forall>a. handlerIdx c \<le> a \<and> a < handlerIdx c' \<longrightarrow> Advance a \<in> set T))"

section \<open>Termination of the chain\<close>

text \<open>The cursor never decreases; this is what the termination argument needs.\<close>

lemma Next_run_idx_mono:
  "Next_run_dom (Inl (hc, c)) \<Longrightarrow> Next hc c = Some c' \<Longrightarrow> handlerIdx c \<le> handlerIdx c'"
  "Next_run_dom (Inr (hc, h, c)) \<Longrightarrow> run hc h c = Some c' \<Longrightarrow> handlerIdx c \<le> handlerIdx c'"
proof (induction hc c and hc h c arbitrary: c' and c' rule: Next_run.pinduct)
  case (1 hc c)
  let ?c1 = "c\<lparr>handlerIdx := handlerIdx c + 1, trace := trace c @ [Advance (handlerIdx c)]\<rparr>"
  show ?case
  proof (cases "handlerIdx ?c1 < int (length hc)")
    case True
    with "1.prems" "1.hyps" have nn: "\<not> handlerIdx ?c1 < 0"
      and r: "run hc (hc ! nat (handlerIdx ?c1))
                (?c1\<lparr>trace := trace ?c1 @ [Invoke (nat (handlerIdx ?c1))]\<rparr>) = Some c'"
      by (auto simp: Next.psimps Let_def split: if_splits)
    from "1.IH"[OF refl True nn r] show ?thesis by simp
  next
    case False
    with "1.prems" "1.hyps" show ?thesis
      by (auto simp: Next.psimps Let_def split: if_splits)
  qed
next
  case (2 hc c)
  then show ?case by (simp add: run.psimps)
next
  case (3 hc f k c)
  then show ?case by (simp add: run.psimps Result_def)
next
  case (4 hc f k c)
  then show ?case by (simp add: run.psimps Error_def)
next
  case (5 hc key f k c)
  then show ?case by (simp add: run.psimps Set_def)
next
  case (6 hc k c)
  then show ?case by (fastforce simp add: run.psimps split: option.splits)
next
  case (7 hc p a b c)
  then show ?case by (auto simp add: run.psimps split: if_splits)
qed

termination Next
proof (relation "(\<lambda>x. case x of Inl (hc, c) \<Rightarrow> nat (int (length hc) - handlerIdx c)
                          | Inr (hc, h, c) \<Rightarrow> nat (int (length hc) - handlerIdx c))
                 <*mlex*> measure (\<lambda>x. case x of Inl _ \<Rightarrow> 0 | Inr (hc, h, c) \<Rightarrow> Suc (size h))", goal_cases)
  case 1
  then show ?case by (simp add: wf_mlex)
next
  case (2 hc c x)
  then show ?case by (auto intro!: mlex_less)
next
  case (3 hc f k c)
  then show ?case by (auto intro!: mlex_leq simp: Result_def)
next
  case (4 hc f k c)
  then show ?case by (auto intro!: mlex_leq simp: Error_def)
next
  case (5 hc key f k c)
  then show ?case by (auto intro!: mlex_leq simp: Set_def)
next
  case (6 hc k c)
  then show ?case by (auto intro!: mlex_leq)
next
  case (7 hc k c x2)
  then show ?case using Next_run_idx_mono(1)[of hc c x2] by (auto intro!: mlex_leq)
next
  case (8 hc p a b c)
  then show ?case by (auto intro!: mlex_leq)
next
  case (9 hc p a b c)
  then show ?case by (auto intro!: mlex_leq)
qed

section \<open>The chain: cursor and trace\<close>

declare Next.simps [simp del]

lemma Next_Some_cases:
  assumes "Next hc c = Some c'"
  obtains (invoke) "handlerIdx c + 1 < int (length hc)" "0 \<le> handlerIdx c + 1"
      "run hc (hc ! nat (handlerIdx c + 1))
         (c\<lparr>handlerIdx := handlerIdx c + 1,
            trace := trace c @ [Advance (handlerIdx c), Invoke (nat (handlerIdx c + 1))]\<rparr>) = Some c'"
  | (past) "\<not> handlerIdx c + 1 < int (length hc)"
      "c' = c\<lparr>handlerIdx := handlerIdx c + 1, trace := trace c @ [Advance (handlerIdx c)]\<rparr>"
  using assms by (auto simp: Next.simps Let_def split: if_splits)

lemma Next_run_mono:
  "Next hc c = Some c' \<Longrightarrow> handlerIdx c \<le> handlerIdx c'"
  "run hc h c = Some c' \<Longrightarrow> handlerIdx c \<le> handlerIdx c'"
proof (induction hc c and hc h c arbitrary: c' and c' rule: Next_run.induct)
  case (1 hc c)
  from "1.prems" show ?case
  proof (cases rule: Next_Some_cases)
    case invoke
    from "1.IH"[OF refl _ _ ] invoke show ?thesis by force
  next
    case past
    then show ?thesis by simp
  qed
next
  case (6 hc k c)
  then show ?case by (fastforce split: option.splits)
qed (auto simp: Result_def Error_def Set_def split: if_splits)

lemma Next_run_total:
  "- 1 \<le> handlerIdx c \<Longrightarrow> \<exists>c'. Next hc c = Some c'"
  "- 1 \<le> handlerIdx c \<Longrightarrow> \<exists>c'. run hc h c = Some c'"
proof (induction hc c and hc h c rule: Next_run.induct)
  case (1 hc c)
  show ?case
  proof (cases "handlerIdx c + 1 < int (length hc)")
    case True
    with "1.prems" "1.IH"[OF refl] show ?thesis by (simp add: Next.simps Let_def)
  next
    case False
    then show ?thesis by (simp add: Next.simps Let_def)
  qed
next
  case (6 hc k c)
  from "6.IH"(1)[OF "6.prems"] obtain c1 where c1: "Next hc c = Some c1" by blast
  with Next_run_mono(1)[OF c1] "6.prems" have "- 1 \<le> handlerIdx c1" by simp
  from "6.IH"(2)[OF c1 this] c1 show ?case by simp
qed (auto simp: Result_def Error_def Set_def)

lemma covers_refl: "covers c c"
  by (simp add: covers_def)

lemma covers_trans:
  assumes "covers a b" "covers b c" "handlerIdx b \<le> handlerIdx c"
  shows "covers a c"
proof -
  from assms(1) obtain T1 where T1: "trace b = trace a @ T1"
    "\<forall>j. Invoke j \<in> set T1 \<longrightarrow> int j \<le> handlerIdx b"
    "\<forall>x. handlerIdx a \<le> x \<and> x < handlerIdx b \<longrightarrow> Advance x \<in> set T1"
    unfolding covers_def by blast
  from assms(2) obtain T2 where T2: "trace c = trace b @ T2"
    "\<forall>j. Invoke j \<in> set T2 \<longrightarrow> int j \<le> handlerIdx c"
    "\<forall>x. handlerIdx b \<le> x \<and> x < handlerIdx c \<longrightarrow> Advance x \<in> set T2"
    unfolding covers_def by blast
  have "trace c = trace a @ (T1 @ T2)" using T1(1) T2(1) by simp
  moreover have "\<forall>j. Invoke j \<in> set (T1 @ T2) \<longrightarrow> int j \<le> handlerIdx c"
    using T1(2) T2(2) assms(3) by fastforce
  moreover have "\<forall>x. handlerIdx a \<le> x \<and> x < handlerIdx c \<longrightarrow> Advance x \<in> set (T1 @ T2)"
  proof (intro allI impI)
    fix x assume x: "handlerIdx a \<le> x \<and> x < handlerIdx c"
    show "Advance x \<in> set (T1 @ T2)"
    proof (cases "x < handlerIdx b")
      case True with x T1(3) show ?thesis by simp
    next
      case False with x T2(3) show ?thesis by simp
    qed
  qed
  ultimately show ?thesis unfolding covers_def by blast
qed

lemma Next_run_covers:
  "Next hc c = Some c' \<Longrightarrow> covers c c'"
  "run hc h c = Some c' \<Longrightarrow> covers c c'"
proof (induction hc c and hc h c arbitrary: c' and c' rule: Next_run.induct)
  case (1 hc c)
  from "1.prems" show ?case
  proof (cases rule: Next_Some_cases)
    case invoke
    let ?c1 = "c\<lparr>handlerIdx := handlerIdx c + 1, trace := trace c @ [Advance (handlerIdx c)]\<rparr>"
    let ?c2 = "c\<lparr>handlerIdx := handlerIdx c + 1,
            trace := trace c @ [Advance (handlerIdx c), Invoke (nat (handlerIdx c + 1))]\<rparr>"
    have eq: "?c1\<lparr>trace := trace ?c1 @ [Invoke (nat (handlerIdx ?c1))]\<rparr> = ?c2" by simp
    have a: "covers ?c2 c'"
      using "1.IH"[OF refl, of c'] invoke eq by simp
    have b: "covers c ?c2"
      using invoke(2) unfolding covers_def by auto
    have "handlerIdx ?c2 \<le> handlerIdx c'"
      using Next_run_mono(2)[OF invoke(3)] .
    with b a show ?thesis by (rule covers_trans)
  next
    case past
    then show ?thesis unfolding covers_def by auto
  qed
next
  case (6 hc k c)
  from "6.prems" obtain c1 where c1: "Next hc c = Some c1" and r: "run hc k c1 = Some c'"
    by (auto split: option.splits)
  from "6.IH"(1)[OF c1] "6.IH"(2)[OF c1 r] Next_run_mono(2)[OF r]
  show ?case by (rule covers_trans)
qed (auto simp: Result_def Error_def Set_def covers_def split: if_splits)

lemma Next_run_take:
  "Next hc c = Some c' \<Longrightarrow> handlerIdx c' < int n \<Longrightarrow> Next (take n hc) c = Some c'"
  "run hc h c = Some c' \<Longrightarrow> handlerIdx c' < int n \<Longrightarrow> run (take n hc) h c = Some c'"
proof (induction hc c and hc h c arbitrary: c' and c' rule: Next_run.induct)
  case (1 hc c)
  from "1.prems"(1) show ?case
  proof (cases rule: Next_Some_cases)
    case invoke
    let ?c1 = "c\<lparr>handlerIdx := handlerIdx c + 1, trace := trace c @ [Advance (handlerIdx c)]\<rparr>"
    have le: "handlerIdx c + 1 \<le> handlerIdx c'"
      using Next_run_mono(2)[OF invoke(3)] by simp
    with "1.prems"(2) invoke have lt: "nat (handlerIdx c + 1) < n" "nat (handlerIdx c + 1) < length hc"
      by auto
    have "run (take n hc) (hc ! nat (handlerIdx ?c1))
            (?c1\<lparr>trace := trace ?c1 @ [Invoke (nat (handlerIdx ?c1))]\<rparr>) = Some c'"
      using "1.IH"[OF refl _ _ _ "1.prems"(2)] invoke by simp
    with lt invoke show ?thesis
      by (simp add: Next.simps[of "take n hc"] Let_def)
  next
    case past
    then have "\<not> handlerIdx c + 1 < int (length (take n hc))" by simp
    with past(2) show ?thesis
      by (simp only: Next.simps[of "take n hc"] Let_def) simp
  qed
next
  case (6 hc k c)
  from "6.prems" obtain c1 where c1: "Next hc c = Some c1" and r: "run hc k c1 = Some c'"
    by (auto split: option.splits)
  from Next_run_mono(2)[OF r] "6.prems"(2) have "handlerIdx c1 < int n" by simp
  from "6.IH"(1)[OF c1 this] "6.IH"(2)[OF c1 r "6.prems"(2)] show ?case by simp
qed (auto simp: Result_def Error_def Set_def split: if_splits)

section \<open>The server\<close>

lemmas ex_defs = ex_logging_def ex_auth_def ex_add_def ex_server_def ex_request_def
  handleRequest_def router_find_def newContext_def writeResponse_def createResponse_def
  Next.simps Let_def Result_def Error_def Set_def NewError_def
  ex_twice_def ex_stop_def ex_late_def ex_server2_def ex_server_cut_def

subsection \<open>Requests without an id\<close>

text \<open>
  Claim C5. A decoded request whose id is null or absent (Go's nil in either case) is
  answered with one response carrying the ParseError object (code -32700) and a null id,
  and no handler is invoked: the trace is empty, whether or not the method is registered.
\<close>
theorem handleRequest_null_id:
  assumes "req_ID req = GoNil"
  shows "handleRequest s enc req =
           Some (enc @ [\<lparr>resp_Jsonrpc = ''2.0'', resp_Result = GoNil,
                           resp_Error = Some (ErrorObject (- 32700) ''Parse error'' GoNil),
                           resp_ID = GoNil\<rparr>], [])"
  using assms
  by (simp add: handleRequest_def writeResponse_def createResponse_def ParseError_def
      NewError_def CodeParseError_def)

theorem handleRequest_null_id_witness:
  "req_ID (ex_request ''Arith.Add'' ''secret-token'' GoNil) = GoNil \<and>
   handleRequest ex_server [] (ex_request ''Arith.Add'' ''secret-token'' GoNil) =
     Some ([\<lparr>resp_Jsonrpc = ''2.0'', resp_Result = GoNil,
              resp_Error = Some (ErrorObject (- 32700) ''Parse error'' GoNil),
              resp_ID = GoNil\<rparr>], [])"
proof -
  have h: "req_ID (ex_request ''Arith.Add'' ''secret-token'' GoNil) = GoNil"
    by (simp add: ex_request_def)
  from handleRequest_null_id[OF h, of ex_server "[]"] h show ?thesis by simp
qed

subsection \<open>Unregistered methods\<close>

text \<open>
  Claim C6. A request with a non-null id whose method is not in the registry is answered
  with one error response keyed to the request's id, with code -32601 (Method not found)
  and the method name as its data, and no handler is invoked.
\<close>
theorem handleRequest_method_not_found:
  assumes "req_ID req \<noteq> GoNil" and "router_find (req_Method req) (router s) = None"
  shows "handleRequest s enc req =
           Some (enc @ [\<lparr>resp_Jsonrpc = ''2.0'', resp_Result = GoNil,
                           resp_Error = Some (ErrorObject (- 32601) ''Method not found''
                                                (GoString (req_Method req))),
                           resp_ID = req_ID req\<rparr>], [])"
  using assms
  by (simp add: handleRequest_def writeResponse_def createResponse_def MethodNotFoundError_def
      NewError_def CodeMethodNotFound_def)

theorem handleRequest_method_not_found_witness:
  "req_ID (ex_request ''Arith.Sub'' ''secret-token'' (GoString ''a1'')) \<noteq> GoNil \<and>
   router_find (req_Method (ex_request ''Arith.Sub'' ''secret-token'' (GoString ''a1'')))
     (router ex_server) = None \<and>
   handleRequest ex_server [] (ex_request ''Arith.Sub'' ''secret-token'' (GoString ''a1'')) =
     Some ([\<lparr>resp_Jsonrpc = ''2.0'', resp_Result = GoNil,
              resp_Error = Some (ErrorObject (- 32601) ''Method not found'' (GoString ''Arith.Sub'')),
              resp_ID = GoString ''a1''\<rparr>], [])"
proof -
  have h1: "req_ID (ex_request ''Arith.Sub'' ''secret-token'' (GoString ''a1'')) \<noteq> GoNil"
    by (simp add: ex_request_def)
  have h2: "router_find (req_Method (ex_request ''Arith.Sub'' ''secret-token'' (GoString ''a1'')))
     (router ex_server) = None"
    by (simp add: ex_request_def ex_server_def router_find_def)
  from handleRequest_method_not_found[OF h1 h2, of "[]"] h1 h2 show ?thesis
    by (simp add: ex_request_def)
qed

lemma createResponse_not_both:
  "\<not> (result_populated (createResponse rid data) \<and> error_populated (createResponse rid data))"
  by (cases data) (simp_all add: createResponse_def result_populated_def error_populated_def)

subsection \<open>The response of a registered method\<close>

text \<open>
  Claim C1, as the code has it. For a request with a non-null id and a registered method
  the chain runs to its end without a panic and exactly one response is written. Its id is
  the request's id, and result and error are never both populated. The error is populated
  exactly when the chain leaves a non-nil error on the context (or, with no error set, a
  result that is itself a non-nil \<^verbatim>\<open>*ErrorObject\<close>); the result is populated exactly when
  no error is left and the result left is neither nil nor an \<^verbatim>\<open>*ErrorObject\<close>. So when no
  handler sets a result or an error, the response carries neither.
\<close>
theorem handleRequest_registered:
  assumes "req_ID req \<noteq> GoNil"
    and "router_find (req_Method req) (router s) = Some entry"
  shows "\<exists>ctx' r.
           Next (globalMiddlewares s @ chain entry) (newContext req) = Some ctx' \<and>
           handleRequest s enc req = Some (enc @ [r], trace ctx') \<and>
           resp_ID r = req_ID req \<and>
           \<not> (result_populated r \<and> error_populated r) \<and>
           (error_populated r \<longleftrightarrow>
              responseError ctx' \<noteq> None \<or> (\<exists>e. responseResult ctx' = GoErrorObjectPtr (Some e))) \<and>
           (result_populated r \<longleftrightarrow>
              responseError ctx' = None \<and> responseResult ctx' \<noteq> GoNil \<and>
              (\<forall>p. responseResult ctx' \<noteq> GoErrorObjectPtr p))"
proof -
  have "- 1 \<le> handlerIdx (newContext req)" by (simp add: newContext_def)
  from Next_run_total(1)[OF this] obtain ctx' where
    n: "Next (globalMiddlewares s @ chain entry) (newContext req) = Some ctx'" by blast
  let ?data = "if responseError ctx' \<noteq> None then GoErrorObjectPtr (responseError ctx')
               else responseResult ctx'"
  let ?r = "createResponse (req_ID req) ?data"
  have hr: "handleRequest s enc req = Some (enc @ [?r], trace ctx')"
    using assms n by (simp add: handleRequest_def writeResponse_def Let_def)
  have id: "resp_ID ?r = req_ID req"
    by (cases ?data) (simp_all add: createResponse_def)
  have e: "error_populated ?r \<longleftrightarrow>
             responseError ctx' \<noteq> None \<or> (\<exists>e. responseResult ctx' = GoErrorObjectPtr (Some e))"
    by (cases "responseResult ctx'") (auto simp: createResponse_def error_populated_def)
  have r: "result_populated ?r \<longleftrightarrow>
             responseError ctx' = None \<and> responseResult ctx' \<noteq> GoNil \<and>
             (\<forall>p. responseResult ctx' \<noteq> GoErrorObjectPtr p)"
    by (cases "responseResult ctx'") (auto simp: createResponse_def result_populated_def)
  from n hr id createResponse_not_both[of "req_ID req" ?data] e r show ?thesis by blast
qed

lemma ex_add_run:
  "handleRequest ex_server [] (ex_request ''Arith.Add'' ''secret-token'' (GoFloat (Fin 1))) =
     Some ([\<lparr>resp_Jsonrpc = ''2.0'', resp_Result = GoInt 15, resp_Error = None,
              resp_ID = GoFloat (Fin 1)\<rparr>],
           [Advance (- 1), Invoke 0, Advance 0, Invoke 1, Advance 1, Invoke 2])"
  by (simp add: ex_defs)

lemma ex_auth_run:
  "handleRequest ex_server [] (ex_request ''Arith.Add'' ''wrong'' (GoFloat (Fin 1))) =
     Some ([\<lparr>resp_Jsonrpc = ''2.0'', resp_Result = GoNil,
              resp_Error = Some (ErrorObject (- 32001) ''Unauthorized'' GoNil),
              resp_ID = GoFloat (Fin 1)\<rparr>],
           [Advance (- 1), Invoke 0, Advance 0, Invoke 1])"
  by (simp add: ex_defs)

theorem handleRequest_registered_witness:
  "req_ID (ex_request ''Arith.Add'' ''wrong'' (GoFloat (Fin 1))) \<noteq> GoNil \<and>
   router_find (req_Method (ex_request ''Arith.Add'' ''wrong'' (GoFloat (Fin 1)))) (router ex_server)
     = Some \<lparr>chain = [ex_logging, ex_auth, ex_add]\<rparr> \<and>
   (\<exists>r. handleRequest ex_server [] (ex_request ''Arith.Add'' ''wrong'' (GoFloat (Fin 1)))
          = Some ([r], [Advance (- 1), Invoke 0, Advance 0, Invoke 1]) \<and>
        resp_ID r = GoFloat (Fin 1) \<and> error_populated r \<and> \<not> result_populated r) \<and>
   req_ID (ex_request ''Arith.Add'' ''secret-token'' (GoFloat (Fin 1))) \<noteq> GoNil \<and>
   router_find (req_Method (ex_request ''Arith.Add'' ''secret-token'' (GoFloat (Fin 1))))
     (router ex_server) = Some \<lparr>chain = [ex_logging, ex_auth, ex_add]\<rparr> \<and>
   (\<exists>r. handleRequest ex_server [] (ex_request ''Arith.Add'' ''secret-token'' (GoFloat (Fin 1)))
          = Some ([r], [Advance (- 1), Invoke 0, Advance 0, Invoke 1, Advance 1, Invoke 2]) \<and>
        resp_ID r = GoFloat (Fin 1) \<and> result_populated r \<and> \<not> error_populated r)"
proof -
  let ?rq = "ex_request ''Arith.Add'' ''wrong'' (GoFloat (Fin 1))"
  let ?rq' = "ex_request ''Arith.Add'' ''secret-token'' (GoFloat (Fin 1))"
  have h1: "req_ID ?rq \<noteq> GoNil" by (simp add: ex_request_def)
  have h2: "router_find (req_Method ?rq) (router ex_server)
              = Some \<lparr>chain = [ex_logging, ex_auth, ex_add]\<rparr>"
    by (simp add: ex_request_def ex_server_def router_find_def)
  have h1': "req_ID ?rq' \<noteq> GoNil" by (simp add: ex_request_def)
  have h2': "router_find (req_Method ?rq') (router ex_server)
              = Some \<lparr>chain = [ex_logging, ex_auth, ex_add]\<rparr>"
    by (simp add: ex_request_def ex_server_def router_find_def)
  have a: "\<exists>r. handleRequest ex_server [] ?rq
          = Some ([r], [Advance (- 1), Invoke 0, Advance 0, Invoke 1]) \<and>
        resp_ID r = GoFloat (Fin 1) \<and> error_populated r \<and> \<not> result_populated r"
    using handleRequest_registered[OF h1 h2, of "[]"] ex_auth_run
    by (auto simp: error_populated_def result_populated_def)
  have b: "\<exists>r. handleRequest ex_server [] ?rq'
          = Some ([r], [Advance (- 1), Invoke 0, Advance 0, Invoke 1, Advance 1, Invoke 2]) \<and>
        resp_ID r = GoFloat (Fin 1) \<and> result_populated r \<and> \<not> error_populated r"
    using handleRequest_registered[OF h1' h2', of "[]"] ex_add_run
    by (auto simp: error_populated_def result_populated_def)
  from h1 h2 h1' h2' a b show ?thesis by blast
qed

theorem handleRequest_neither_counterexample:
  "req_ID (ex_request ''Log.Only'' ''x'' (GoFloat (Fin 1))) \<noteq> GoNil \<and>
   router_find (req_Method (ex_request ''Log.Only'' ''x'' (GoFloat (Fin 1)))) (router ex_server)
     = Some \<lparr>chain = [ex_logging]\<rparr> \<and>
   handleRequest ex_server [] (ex_request ''Log.Only'' ''x'' (GoFloat (Fin 1))) =
     Some ([\<lparr>resp_Jsonrpc = ''2.0'', resp_Result = GoNil, resp_Error = None,
              resp_ID = GoFloat (Fin 1)\<rparr>], [Advance (- 1), Invoke 0, Advance 0]) \<and>
   \<not> result_populated \<lparr>resp_Jsonrpc = ''2.0'', resp_Result = GoNil, resp_Error = None,
              resp_ID = GoFloat (Fin 1)\<rparr> \<and>
   \<not> error_populated \<lparr>resp_Jsonrpc = ''2.0'', resp_Result = GoNil, resp_Error = None,
              resp_ID = GoFloat (Fin 1)\<rparr>"
  by (simp add: ex_defs result_populated_def error_populated_def)

subsection \<open>Short-circuiting the chain\<close>

text \<open>
  Claim C2, as the code has it. Take a request with a non-null id and a registered method.
  If the handler at index \<open>i\<close> is invoked and \<open>Next\<close> is never called while the cursor is at
  \<open>i\<close> (the handler returns without calling it, and no enclosing handler calls \<open>Next\<close>
  again once it has returned), then no handler at a later index is invoked for that
  request, and the response and the trace are those of a server whose chain for the method
  stops after index \<open>i\<close>: the response is built from what the handlers up to \<open>i\<close> leave
  on the context, the code that enclosing handlers run after their \<open>Next\<close> included.
\<close>
theorem short_circuit:
  assumes "req_ID req \<noteq> GoNil"
    and "router_find (req_Method req) (router s) = Some entry"
    and "handleRequest s enc req = Some (out, tr)"
    and "Invoke i \<in> set tr"
    and "Advance (int i) \<notin> set tr"
    and "router_find (req_Method req) (router s') = Some entry'"
    and "globalMiddlewares s' @ chain entry' = take (Suc i) (globalMiddlewares s @ chain entry)"
  shows "(\<forall>j. Invoke j \<in> set tr \<longrightarrow> j \<le> i) \<and> handleRequest s' enc req = Some (out, tr)"
proof -
  let ?hc = "globalMiddlewares s @ chain entry"
  from assms(1-3) obtain c' where
    n: "Next ?hc (newContext req) = Some c'" and tr: "tr = trace c'"
    and out: "out = (if responseError c' \<noteq> None
                     then writeResponse enc (req_ID req) (GoErrorObjectPtr (responseError c'))
                     else writeResponse enc (req_ID req) (responseResult c'))"
    by (auto simp: handleRequest_def Let_def split: option.splits)
  from Next_run_covers(1)[OF n] tr have
    inv: "\<forall>j. Invoke j \<in> set tr \<longrightarrow> int j \<le> handlerIdx c'"
    and adv: "\<forall>a. - 1 \<le> a \<and> a < handlerIdx c' \<longrightarrow> Advance a \<in> set tr"
    by (auto simp: covers_def newContext_def)
  from inv assms(4) have "int i \<le> handlerIdx c'" by blast
  moreover have "\<not> int i < handlerIdx c'"
    using adv assms(5) by auto
  ultimately have idx: "handlerIdx c' = int i" by simp
  with inv have later: "\<forall>j. Invoke j \<in> set tr \<longrightarrow> j \<le> i" by auto
  from idx have "handlerIdx c' < int (Suc i)" by simp
  from Next_run_take(1)[OF n this] assms(7)
  have "Next (globalMiddlewares s' @ chain entry') (newContext req) = Some c'" by simp
  with assms(1,6) tr out have "handleRequest s' enc req = Some (out, tr)"
    by (simp add: handleRequest_def Let_def)
  with later show ?thesis by blast
qed

theorem short_circuit_witness:
  "req_ID (ex_request ''Arith.Add'' ''wrong'' (GoFloat (Fin 1))) \<noteq> GoNil \<and>
   router_find (req_Method (ex_request ''Arith.Add'' ''wrong'' (GoFloat (Fin 1)))) (router ex_server)
     = Some \<lparr>chain = [ex_logging, ex_auth, ex_add]\<rparr> \<and>
   handleRequest ex_server [] (ex_request ''Arith.Add'' ''wrong'' (GoFloat (Fin 1))) =
     Some ([\<lparr>resp_Jsonrpc = ''2.0'', resp_Result = GoNil,
              resp_Error = Some (ErrorObject (- 32001) ''Unauthorized'' GoNil),
              resp_ID = GoFloat (Fin 1)\<rparr>],
           [Advance (- 1), Invoke 0, Advance 0, Invoke 1]) \<and>
   Invoke 1 \<in> set [Advance (- 1), Invoke 0, Advance 0, Invoke 1] \<and>
   Advance (int 1) \<notin> set [Advance (- 1), Invoke 0, Advance 0, Invoke 1] \<and>
   router_find (req_Method (ex_request ''Arith.Add'' ''wrong'' (GoFloat (Fin 1)))) (router ex_server_cut)
     = Some \<lparr>chain = [ex_logging, ex_auth]\<rparr> \<and>
   globalMiddlewares ex_server_cut @ chain \<lparr>chain = [ex_logging, ex_auth]\<rparr> =
     take (Suc 1) (globalMiddlewares ex_server @ chain \<lparr>chain = [ex_logging, ex_auth, ex_add]\<rparr>) \<and>
   Invoke 2 \<notin> set [Advance (- 1), Invoke 0, Advance 0, Invoke 1] \<and>
   handleRequest ex_server_cut [] (ex_request ''Arith.Add'' ''wrong'' (GoFloat (Fin 1))) =
     Some ([\<lparr>resp_Jsonrpc = ''2.0'', resp_Result = GoNil,
              resp_Error = Some (ErrorObject (- 32001) ''Unauthorized'' GoNil),
              resp_ID = GoFloat (Fin 1)\<rparr>],
           [Advance (- 1), Invoke 0, Advance 0, Invoke 1])"
proof -
  let ?rq = "ex_request ''Arith.Add'' ''wrong'' (GoFloat (Fin 1))"
  let ?tr = "[Advance (- 1), Invoke 0, Advance 0, Invoke 1]"
  have h1: "req_ID ?rq \<noteq> GoNil" by (simp add: ex_request_def)
  have h2: "router_find (req_Method ?rq) (router ex_server)
              = Some \<lparr>chain = [ex_logging, ex_auth, ex_add]\<rparr>"
    by (simp add: ex_request_def ex_server_def router_find_def)
  have h4: "Invoke 1 \<in> set ?tr" by simp
  have h5: "Advance (int 1) \<notin> set ?tr" by simp
  have h6: "router_find (req_Method ?rq) (router ex_server_cut)
              = Some \<lparr>chain = [ex_logging, ex_auth]\<rparr>"
    by (simp add: ex_request_def ex_server_cut_def router_find_def)
  have h7: "globalMiddlewares ex_server_cut @ chain \<lparr>chain = [ex_logging, ex_auth]\<rparr> =
     take (Suc 1) (globalMiddlewares ex_server @ chain \<lparr>chain = [ex_logging, ex_auth, ex_add]\<rparr>)"
    by (simp add: ex_server_def ex_server_cut_def)
  from short_circuit[OF h1 h2 ex_auth_run h4 h5 h6 h7] h1 h2 ex_auth_run h4 h5 h6 h7
  show ?thesis by simp
qed

theorem short_circuit_counterexample:
  "\<not> has_Next ((globalMiddlewares ex_server2 @ [ex_stop, ex_late]) ! 1) \<and>
   router_find ''M'' (router ex_server2) = Some \<lparr>chain = [ex_stop, ex_late]\<rparr> \<and>
   handleRequest ex_server2 [] (ex_request ''M'' ''x'' (GoFloat (Fin 1))) =
     Some ([\<lparr>resp_Jsonrpc = ''2.0'', resp_Result = GoString ''late'', resp_Error = None,
              resp_ID = GoFloat (Fin 1)\<rparr>],
           [Advance (- 1), Invoke 0, Advance 0, Invoke 1, Advance 1, Invoke 2])"
  by (simp add: ex_defs)

section \<open>The client\<close>

lemma round_half_even_near:
  assumes "\<bar>x - real_of_int n\<bar> < 1 / 2 \<or> (\<bar>x - real_of_int n\<bar> = 1 / 2 \<and> even n)"
  shows "round_half_even x = n"
proof (cases "real_of_int n \<le> x")
  case True
  with assms have "x < real_of_int n + 1" by linarith
  with True have fl: "\<lfloor>x\<rfloor> = n" by linarith
  from assms True have "x - real_of_int n < 1 / 2 \<or> (x - real_of_int n = 1 / 2 \<and> even n)"
    by linarith
  with fl show ?thesis by (auto simp: round_half_even_def Let_def)
next
  case False
  with assms have "real_of_int n - 1 \<le> x" by linarith
  with False have fl: "\<lfloor>x\<rfloor> = n - 1" by linarith
  from assms False have "1 / 2 < x - real_of_int (n - 1) \<or> (x - real_of_int (n - 1) = 1 / 2 \<and> even n)"
    by auto
  with fl show ?thesis by (auto simp: round_half_even_def Let_def)
qed

subsection \<open>Keys of correlation ids\<close>

text \<open>
  Claim C10, as the code has it. \<open>idToKey\<close> is not injective on supported ids: for every
  non-negative integer \<open>n\<close>, the integer id \<open>n\<close>, the string id of its decimal digits
  and every float id that is not negative and lies strictly within 0.5 of \<open>n\<close> (or at
  exactly 0.5 from an even \<open>n\<close>) map to the same key, the digits of \<open>n\<close>. A negative
  float within 0.5 of zero keys to \<open>-0\<close>, and a float halfway between two integers keys
  to the even one.
\<close>

theorem idToKey_collides:
  assumes "0 \<le> n" and "0 \<le> f"
    and "\<bar>f - real_of_int n\<bar> < 1 / 2 \<or> (\<bar>f - real_of_int n\<bar> = 1 / 2 \<and> even n)"
  shows "idToKey (GoInt n) = Inr (decimal (nat n)) \<and>
         idToKey (GoString (decimal (nat n))) = Inr (decimal (nat n)) \<and>
         idToKey (GoFloat (Fin f)) = Inr (decimal (nat n))"
  using assms round_half_even_near[OF assms(3)]
  by (simp add: idToKey_def Sprintf_d_def Sprintf_f0_def)

theorem idToKey_collides_witness:
  "(0::int) \<le> 5 \<and> (0::real) \<le> 43 / 8 \<and> \<bar>43 / 8 - real_of_int 5\<bar> < 1 / 2 \<and>
   idToKey (GoInt 5) = Inr ''5'' \<and> idToKey (GoString ''5'') = Inr ''5'' \<and>
   idToKey (GoFloat (Fin (43 / 8))) = Inr ''5''"
proof -
  have h3: "\<bar>43 / 8 - real_of_int 5\<bar> < 1 / 2 \<or> (\<bar>43 / 8 - real_of_int 5\<bar> = 1 / 2 \<and> even (5::int))"
    by simp
  have d: "decimal (nat 5) = ''5''" by (simp add: decimal.simps)
  from idToKey_collides[of 5 "43 / 8", OF _ _ h3] d show ?thesis by simp
qed

theorem idToKey_collides_counterexample:
  "\<bar>- 1 / 4 - real_of_int 0\<bar> < 1 / 2 \<and>
   idToKey (GoInt 0) = Inr ''0'' \<and>
   idToKey (GoFloat (Fin (- 1 / 4))) = Inr ''-0'' \<and>
   \<bar>11 / 2 - real_of_int 5\<bar> = 1 / 2 \<and>
   idToKey (GoInt 5) = Inr ''5'' \<and>
   idToKey (GoFloat (Fin (11 / 2))) = Inr ''6''"
  by (simp add: idToKey_def Sprintf_d_def Sprintf_f0_def round_half_even_def Let_def decimal.simps)



subsection \<open>Rejected ids\<close>




subsection \<open>Registering before the write, cleaning up after a failed write\<close>



subsection \<open>Completion signals\<close>

text \<open>
  Claim C3 says that every call is signalled on its \<^verbatim>\<open>Done\<close> channel exactly once. The
  code breaks it on this run: call 0 is sent under the id \<open>job\<close>; call 1 is registered
  under the same id and replaces it in the pending map; the response to call 0 arrives
  and the receive loop signals call 1; the write of call 1 then fails and \<open>send_failed\<close>
  signals call 1 a second time. Call 0 is in no map any more: not even the failure sweep
  signals it.
\<close>

theorem send_signals_twice:
  "pending ex_c1 = [(''job'', 0)] \<and> conn ex_c1 = [ex_request_job] \<and> Done ex_c1 = [] \<and>
   send_register (GoString ''job'') 1 (snd (newCall ''work'' GoNil None ex_c1)) = Inr (''job'', ex_c2) \<and>
   pending ex_c2 = [(''job'', 1)] \<and>
   pending ex_c3 = [] \<and> Done ex_c3 = [1] \<and>
   pending ex_c4 = [] \<and> Done ex_c4 = [1, 1] \<and>
   Done (sweep (ErrorString ''EOF'') ex_c4) = [1, 1]"
  by (simp add: ex_c1_def ex_c2_def ex_c3_def ex_c4_def ex_job_def ex_request_job_def
      GoWithID_def newCall_def send_def send_register_def receive_one_def send_failed_def
      Encode_def sweep_def ex_client_def ex_marshal_def ex_unmarshal_def idToKey_def
      Let_def send_Done_def set_Error_def set_Reply_def)

subsection \<open>Binding the params\<close>

text \<open>
  Claim C9, as the code has it. When the params are absent, \<open>Bind\<close> fails with the
  InvalidParams error object (code -32602) and leaves the target as it was. When they are
  present, \<open>Bind\<close> returns what the JSON decoder returns: the decoder's own error when the
  payload does not fit the target, no error when it decodes. In every case the context,
  its result and error included, is unchanged.
\<close>

theorem Bind_outcome:
  "(req_Params (Request c) = None \<longrightarrow>
      Bind unmarshal c v =
        (Some (ErrorObjectErr (ErrorObject (- 32602) ''Invalid params'' (GoString ''params are null''))),
         v, c)) \<and>
   (\<forall>p. req_Params (Request c) = Some p \<longrightarrow>
      Bind unmarshal c v = (fst (unmarshal p v), snd (unmarshal p v), c))"
  by (simp add: Bind_def InvalidParamsError_def NewError_def CodeInvalidParams_def
      split: prod.splits)

theorem Bind_outcome_witness:
  "req_Params (Request (newContext (ex_request ''Arith.Add'' ''42'' (GoFloat (Fin 1))))) = Some ''42'' \<and>
   Bind ex_unmarshal_int (newContext (ex_request ''Arith.Add'' ''42'' (GoFloat (Fin 1)))) 0 =
     (None, 42, newContext (ex_request ''Arith.Add'' ''42'' (GoFloat (Fin 1)))) \<and>
   req_Params (Request (newContext \<lparr>req_Jsonrpc = ''2.0'', req_Method = ''Arith.Add'',
                                    req_Params = None, req_ID = GoFloat (Fin 1)\<rparr>)) = None \<and>
   Bind ex_unmarshal_int (newContext \<lparr>req_Jsonrpc = ''2.0'', req_Method = ''Arith.Add'',
                                      req_Params = None, req_ID = GoFloat (Fin 1)\<rparr>) 0 =
     (Some (ErrorObjectErr (ErrorObject (- 32602) ''Invalid params'' (GoString ''params are null''))),
      0, newContext \<lparr>req_Jsonrpc = ''2.0'', req_Method = ''Arith.Add'',
                       req_Params = None, req_ID = GoFloat (Fin 1)\<rparr>)"
proof -
  let ?c1 = "newContext (ex_request ''Arith.Add'' ''42'' (GoFloat (Fin 1)))"
  let ?c2 = "newContext \<lparr>req_Jsonrpc = ''2.0'', req_Method = ''Arith.Add'',
                         req_Params = None, req_ID = GoFloat (Fin 1)\<rparr>"
  have h1: "req_Params (Request ?c1) = Some ''42''" by (simp add: newContext_def ex_request_def)
  have h2: "req_Params (Request ?c2) = None" by (simp add: newContext_def)
  have u: "ex_unmarshal_int ''42'' 0 = (None, 42)" by (simp add: ex_unmarshal_int_def)
  from Bind_outcome[of ?c1 ex_unmarshal_int 0] Bind_outcome[of ?c2 ex_unmarshal_int 0] h1 h2 u
  show ?thesis by simp
qed

theorem Bind_incompatible_counterexample:
  "Bind ex_unmarshal_int (newContext (ex_request ''Arith.Add'' ''true'' (GoFloat (Fin 1)))) 0 =
     (Some (ErrorString ''json: cannot unmarshal bool into Go value of type int''), 0,
      newContext (ex_request ''Arith.Add'' ''true'' (GoFloat (Fin 1))))"
  by (simp add: Bind_def newContext_def ex_request_def ex_unmarshal_int_def)

end
